theory Spec2Isabelle
  imports Complex_Main "HOL-Library.Signed_Division"
begin

section \<open>Data model\<close>

text \<open>
  The ledger program keeps money as \<^verbatim>\<open>decimal.Decimal\<close> values of the
  shopspring library. The library is an external collaborator: its \<^verbatim>\<open>Add\<close>,
  \<^verbatim>\<open>Neg\<close> and \<^verbatim>\<open>Mul\<close> are exact and \<^verbatim>\<open>IsZero\<close> tests the value, so a
  decimal is modelled by the rational number it denotes and the four operations by
  \<open>+\<close>, unary \<open>-\<close>, \<open>*\<close> and \<open>= 0\<close>. The zero value of the Go type denotes 0.
\<close>

type_synonym decimal = rat

text \<open>\<^verbatim>\<open>time.Time\<close>, as far as the program reads it: year, month and day.\<close>

datatype Month = January | February | March | April | May | June
  | July | August | September | October | November | December

record Time =
  Year :: int
  Month :: Month
  Day :: nat

datatype PostingType = RealPosting | VirtualPosting | BalancedVirtualPosting

text \<open>
  \<^verbatim>\<open>Amount *decimal.Decimal\<close> is a pointer: \<open>None\<close> is the nil pointer of an elided
  amount. \<^verbatim>\<open>GeneratedBy\<close> and \<^verbatim>\<open>From\<close> are Go ints, 0 for a posting the user wrote.
\<close>

record Posting =
  Type :: PostingType
  Account :: string
  Amount :: "decimal option"
  Comment :: string
  GeneratedBy :: int
  From :: int

text \<open>
  \<^verbatim>\<open>Postings []*Posting\<close>: every element is a pointer to a posting of its own (the
  parser and \<^verbatim>\<open>Execute\<close> allocate each one), so the slice is modelled as the list
  of the postings, and a write through one of the pointers as a list update. The
  fields are those of the declaration of \<^verbatim>\<open>Transaction\<close>; the parser of a later
  revision also fills an \<^verbatim>\<open>ID\<close> and a secondary date, which neither the rewriting
  nor the balancing reads.
\<close>

record Transaction =
  Date :: Time
  Description :: string
  Postings :: "Posting list"

text \<open>
  What goes wrong at run time. A Go \<^verbatim>\<open>error\<close> built by \<^verbatim>\<open>errors.Errorf\<close> is
  kept as its format string and arguments; a panic is a value of its own type.
\<close>

datatype error = Errorf string "decimal list"

datatype panic =
    NilPointerDereference
  | PostingCycleDetected
  | JSCallFailed
  | JSGetFailed
  | JSCantInterpretReturnType

section \<open>Balancer\<close>

text \<open>
  The loop of \<^verbatim>\<open>Transaction.AutoBalance\<close>. The state is the index of the posting
  \<^verbatim>\<open>toFill\<close> points to (if any) and the running \<^verbatim>\<open>total\<close> (\<open>tot\<close>); \<open>i\<close> is the index
  of the head of the remaining postings. The early \<^verbatim>\<open>return errors.Errorf(...)\<close>
  is the \<open>Inl\<close> branch.
\<close>

fun AutoBalance_loop ::
  "Posting list \<Rightarrow> nat \<Rightarrow> nat option \<Rightarrow> decimal \<Rightarrow> error + (nat option \<times> decimal)" where
  "AutoBalance_loop [] i toFill tot = Inr (toFill, tot)"
| "AutoBalance_loop (e # es) i toFill tot =
     (case Amount e of
        None \<Rightarrow>
          (if toFill \<noteq> None
           then Inl (Errorf ''AutoBalance: a transaction may only have one elided value'' [])
           else AutoBalance_loop es (Suc i) (Some i) tot)
      | Some a \<Rightarrow> AutoBalance_loop es (Suc i) toFill (tot + a))"

text \<open>
  \<^verbatim>\<open>AutoBalance\<close> mutates the transaction and returns an error or nil: the model
  returns the transaction afterwards and the error, \<open>None\<close> for nil.
\<close>

definition AutoBalance :: "Transaction \<Rightarrow> Transaction \<times> error option" where
  "AutoBalance t =
     (case AutoBalance_loop (Postings t) 0 None 0 of
        Inl err \<Rightarrow> (t, Some err)
      | Inr (None, tot) \<Rightarrow> (t, None)
      | Inr (Some k, tot) \<Rightarrow>
          (t\<lparr>Postings := (Postings t)[k := (Postings t ! k)\<lparr>Amount := Some (- tot)\<rparr>]\<rparr>, None))"

text \<open>
  The loop of \<^verbatim>\<open>Transaction.Balance\<close>. \<^verbatim>\<open>*e.Amount\<close> dereferences the pointer
  without a check, so a posting that is not virtual and has no amount is a panic.
\<close>

fun Balance_loop :: "Posting list \<Rightarrow> decimal \<Rightarrow> panic + decimal" where
  "Balance_loop [] tot = Inr tot"
| "Balance_loop (e # es) tot =
     (if Type e = VirtualPosting then Balance_loop es tot
      else (case Amount e of
              None \<Rightarrow> Inl NilPointerDereference
            | Some a \<Rightarrow> Balance_loop es (tot + a)))"

definition Balance :: "Transaction \<Rightarrow> panic + error option" where
  "Balance t =
     (case Balance_loop (Postings t) 0 of
        Inl p \<Rightarrow> Inl p
      | Inr tot \<Rightarrow>
          (if tot \<noteq> 0
           then Inr (Some (Errorf ''Balance: transactions must balance to zero; instead got %s'' [tot]))
           else Inr None))"

section \<open>Matchers\<close>

text \<open>
  \<^verbatim>\<open>fmt.Sprintf("%d", n)\<close> of a Go int: the decimal digits, with a minus sign
  for a negative number and no padding.
\<close>

fun digits :: "nat \<Rightarrow> string" where
  "digits n = (if n < 10 then [''0123456789'' ! n] else digits (n div 10) @ [''0123456789'' ! (n mod 10)])"

definition Sprintf_d :: "int \<Rightarrow> string" where
  "Sprintf_d n = (if n < 0 then CHR ''-'' # digits (nat (- n)) else digits (nat n))"

text \<open>
  A Go \<^verbatim>\<open>map[string]string\<close>. Reading a key that is absent gives the empty string,
  also from the nil map, which is therefore modelled as the empty map.
\<close>

type_synonym captures = "string \<rightharpoonup> string"

definition index :: "captures \<Rightarrow> string \<Rightarrow> string" where
  "index m k = (case m k of None \<Rightarrow> [] | Some v \<Rightarrow> v)"

text \<open>
  The regexp engine and the JavaScript interpreter are libraries, taken as parameters.
  A compiled \<^verbatim>\<open>*regexp.Regexp\<close> is the function from a subject string to the groups
  of its leftmost match, the whole match first, and \<open>None\<close> where nothing matches.
  The compiled function of a \<^verbatim>\<open>JSMatcher\<close> is the function from the transaction and
  the posting to what \<^verbatim>\<open>fn.Call\<close> gives back: an error, or a value of one of the
  classes \<^verbatim>\<open>Match\<close> tells apart. An object is the list of its keys, each with the
  string of its value, or \<open>None\<close> where \<^verbatim>\<open>obj.Get\<close> fails. The regexp engine
  answers in time linear in its input. The interpreter runs the script of the ledger
  with no interrupt, and a script may loop for ever: the compiled function gives
  \<open>None\<close> where the call (or a getter or a conversion to a string it leaves in the
  object it returns) never returns, and every function that calls it gives \<open>None\<close>
  then. A script is taken to leave the transaction and the posting as they
  are.
\<close>

type_synonym Regexp = "string \<Rightarrow> string list option"

definition FindStringSubmatch :: "Regexp \<Rightarrow> string \<Rightarrow> string list" where
  "FindStringSubmatch r s = (case r s of None \<Rightarrow> [] | Some gs \<Rightarrow> gs)"

definition MatchString :: "Regexp \<Rightarrow> string \<Rightarrow> bool" where
  "MatchString r s = (r s \<noteq> None)"

datatype JSValue =
    JSCallError
  | JSNull
  | JSUndefined
  | JSBoolean bool
  | JSObject "(string \<times> string option) list"
  | JSOther

datatype Matcher =
    RegexpMatcher Regexp
  | JSMatcher "Transaction \<Rightarrow> Posting \<Rightarrow> JSValue option"

text \<open>\<^verbatim>\<open>RegexpMatcher.Match\<close>: the groups under the keys "0", "1", ...\<close>

fun RegexpMatcher_loop :: "nat \<Rightarrow> string list \<Rightarrow> captures \<Rightarrow> captures" where
  "RegexpMatcher_loop i [] e = e"
| "RegexpMatcher_loop i (v # vs) e = RegexpMatcher_loop (Suc i) vs (e(Sprintf_d (int i) \<mapsto> v))"

definition RegexpMatcher_Match :: "Regexp \<Rightarrow> Transaction \<Rightarrow> Posting \<Rightarrow> bool \<times> captures" where
  "RegexpMatcher_Match r tx p =
     (MatchString r (Account p),
      RegexpMatcher_loop 0 (FindStringSubmatch r (Account p)) Map.empty)"

text \<open>
  \<^verbatim>\<open>JSMatcher.Match\<close>, with its three panics; \<open>None\<close> when \<^verbatim>\<open>m.fn.Call\<close> does
  not return.
\<close>

fun JSMatcher_loop :: "(string \<times> string option) list \<Rightarrow> captures \<Rightarrow> panic + captures" where
  "JSMatcher_loop [] e = Inr e"
| "JSMatcher_loop ((key, val) # kvs) e =
     (case val of
        None \<Rightarrow> Inl JSGetFailed
      | Some s \<Rightarrow> JSMatcher_loop kvs (e(key \<mapsto> s)))"

definition JSMatcher_Match ::
  "(Transaction \<Rightarrow> Posting \<Rightarrow> JSValue option) \<Rightarrow> Transaction \<Rightarrow> Posting \<Rightarrow>
     (panic + (bool \<times> captures)) option" where
  "JSMatcher_Match fn tx p =
     (case fn tx p of
        None \<Rightarrow> None
      | Some JSCallError \<Rightarrow> Some (Inl JSCallFailed)
      | Some JSNull \<Rightarrow> Some (Inr (False, Map.empty))
      | Some JSUndefined \<Rightarrow> Some (Inr (False, Map.empty))
      | Some (JSBoolean b) \<Rightarrow> Some (Inr (b, Map.empty))
      | Some (JSObject kvs) \<Rightarrow>
          (case JSMatcher_loop kvs Map.empty of
             Inl pn \<Rightarrow> Some (Inl pn)
           | Inr e \<Rightarrow> Some (Inr (True, e)))
      | Some JSOther \<Rightarrow> Some (Inl JSCantInterpretReturnType))"

text \<open>The call \<^verbatim>\<open>e.Match(tx, p)\<close> through the \<^verbatim>\<open>Matcher\<close> interface.\<close>

fun Matcher_Match ::
  "Matcher \<Rightarrow> Transaction \<Rightarrow> Posting \<Rightarrow> (panic + (bool \<times> captures)) option" where
  "Matcher_Match (RegexpMatcher r) tx p = Some (Inr (RegexpMatcher_Match r tx p))"
| "Matcher_Match (JSMatcher fn) tx p = JSMatcher_Match fn tx p"

section \<open>Triggers and actions\<close>

text \<open>
  The fields of \<^verbatim>\<open>Action\<close> are \<^verbatim>\<open>Type\<close>, \<^verbatim>\<open>Account\<close>, \<^verbatim>\<open>Amount\<close> and
  \<^verbatim>\<open>Comment\<close>; they carry the prefix \<open>Action\<close> here to keep them apart from the
  fields of \<open>Posting\<close>.
\<close>

record Action =
  ActionType :: PostingType
  ActionAccount :: string
  ActionAmount :: decimal
  ActionComment :: string

record Trigger =
  ID :: int
  Matchers :: "Matcher list"
  Actions :: "Action list"

text \<open>
  \<^verbatim>\<open>Trigger.Match\<close>: the first matcher that fails ends the loop with the nil map;
  the captures of each matcher that holds are written over those collected so far.
\<close>

fun Trigger_Match_loop ::
  "Matcher list \<Rightarrow> Transaction \<Rightarrow> Posting \<Rightarrow> captures \<Rightarrow>
     (panic + (bool \<times> captures)) option" where
  "Trigger_Match_loop [] tx p m = Some (Inr (True, m))"
| "Trigger_Match_loop (e # es) tx p m =
     (case Matcher_Match e tx p of
        None \<Rightarrow> None
      | Some (Inl pn) \<Rightarrow> Some (Inl pn)
      | Some (Inr (b, mm)) \<Rightarrow>
          (if \<not> b then Some (Inr (False, Map.empty))
           else Trigger_Match_loop es tx p (m ++ mm)))"

definition Trigger_Match ::
  "Trigger \<Rightarrow> Transaction \<Rightarrow> Posting \<Rightarrow> (panic + (bool \<times> captures)) option" where
  "Trigger_Match t tx p = Trigger_Match_loop (Matchers t) tx p Map.empty"

text \<open>
  A matcher returns when its script, if it has one, returns on every transaction and
  posting. A posting is matched by a trigger in a transaction when the trigger is
  tried on it (it is not the trigger's own) and \<^verbatim>\<open>Trigger.Match\<close> answers true.
\<close>

fun matcher_returns :: "Matcher \<Rightarrow> bool" where
  "matcher_returns (RegexpMatcher r) = True"
| "matcher_returns (JSMatcher fn) = (\<forall>tx p. fn tx p \<noteq> None)"


text \<open>
  \<^verbatim>\<open>Action.Execute\<close> rewrites the account template with
  \<^verbatim>\<open>regexp.MustCompile(`\$\{[A-Za-z0-9_]+\}`).ReplaceAllStringFunc\<close>. The pattern is
  fixed, so the library call is modelled for this pattern: \<open>match_prefix\<close> is the
  match that starts at the head of the string (a dollar sign, an opening brace, the
  longest run of identifier characters, which must not be empty, and a closing brace),
  and \<open>ReplaceAllStringFunc\<close> replaces the leftmost match, then goes on after it,
  copying every byte that starts no match.
\<close>

definition ident_char :: "char \<Rightarrow> bool" where
  "ident_char c =
     (c \<in> set ''ABCDEFGHIJKLMNOPQRSTUVWXYZabcdefghijklmnopqrstuvwxyz0123456789_'')"

definition match_prefix :: "string \<Rightarrow> (string \<times> string) option" where
  "match_prefix s =
     (case s of
        c1 # c2 # r \<Rightarrow>
          (if c1 = CHR ''$'' \<and> c2 = CHR ''{'' then
             (let name = takeWhile ident_char r; r' = dropWhile ident_char r
              in if name \<noteq> [] \<and> r' \<noteq> [] \<and> hd r' = CHR ''}''
                 then Some (''${'' @ name @ ''}'', tl r')
                 else None)
           else None)
      | _ \<Rightarrow> None)"

function ReplaceAllStringFunc :: "string \<Rightarrow> (string \<Rightarrow> string) \<Rightarrow> string" where
  "ReplaceAllStringFunc [] repl = []"
| "ReplaceAllStringFunc (c # cs) repl =
     (case match_prefix (c # cs) of
        Some (s, rest) \<Rightarrow> repl s @ ReplaceAllStringFunc rest repl
      | None \<Rightarrow> c # ReplaceAllStringFunc cs repl)"
  by pat_completeness auto
termination
proof (relation "measure (\<lambda>(s, repl). length s)")
  show "wf (measure (\<lambda>(s, repl). length s))"
    by simp
next
  fix c :: char and cs :: string and repl :: "string \<Rightarrow> string" and x2 s rest
  assume "match_prefix (c # cs) = Some x2" and "(s, rest) = x2"
  then have "match_prefix (c # cs) = Some (s, rest)"
    by simp
  then obtain c2 r where "cs = c2 # r" and "rest = tl (dropWhile ident_char r)"
    by (auto simp: match_prefix_def Let_def split: list.splits if_splits)
  moreover have "length (tl (dropWhile ident_char r)) \<le> length r"
    using length_dropWhile_le [of ident_char r] by simp
  ultimately show "((rest, repl), (c # cs, repl)) \<in> measure (\<lambda>(s, repl). length s)"
    by simp
next
  fix c :: char and cs :: string and repl :: "string \<Rightarrow> string"
  show "((cs, repl), (c # cs, repl)) \<in> measure (\<lambda>(s, repl). length s)"
    by simp
qed

text \<open>\<^verbatim>\<open>strings.Trim(s, cutset)\<close>: the bytes of the cutset go from both ends.\<close>

definition Trim :: "string \<Rightarrow> string \<Rightarrow> string" where
  "Trim s cutset =
     rev (dropWhile (\<lambda>c. c \<in> set cutset) (rev (dropWhile (\<lambda>c. c \<in> set cutset) s)))"

text \<open>
  \<^verbatim>\<open>Action.Execute\<close>. \<^verbatim>\<open>p.Amount.Mul(a.Amount)\<close> dereferences the amount of the
  source posting first, and panics when it is nil. The literal \<^verbatim>\<open>&Posting{...}\<close>
  sets the type, the amount and the account; the other fields keep their zero values.
\<close>

definition Execute :: "Action \<Rightarrow> Posting \<Rightarrow> captures \<Rightarrow> panic + Posting" where
  "Execute a p m =
     (case Amount p of
        None \<Rightarrow> Inl NilPointerDereference
      | Some d \<Rightarrow>
          Inr \<lparr>Type = ActionType a,
               Account = ReplaceAllStringFunc (ActionAccount a)
                 (\<lambda>s. let s = Trim s ''${}''
                      in if s = ''account'' then Account p else index m s),
               Amount = Some (d * ActionAmount a),
               Comment = [],
               GeneratedBy = 0,
               From = 0\<rparr>)"

section \<open>Execute on the memory it works in\<close>

text \<open>
  \<^verbatim>\<open>Execute\<close> gets three references: the receiver \<^verbatim>\<open>a *Action\<close>, the source
  \<^verbatim>\<open>p *Posting\<close> and the map \<^verbatim>\<open>m\<close>, and it returns a fourth. To say what the call
  does to what they refer to, the memory is made explicit: the actions, the postings
  and the maps allocated so far, each reference an index into its list. An index
  outside the list of actions or postings stands for the nil pointer, and one outside
  the list of maps for the nil map, which reads as the empty map.
\<close>

record memory =
  action_cells :: "Action list"
  posting_cells :: "Posting list"
  map_cells :: "captures list"

text \<open>The four ways the source touches memory: three reads and the allocation.\<close>

definition load_action :: "memory \<Rightarrow> nat \<Rightarrow> panic + Action" where
  "load_action mem a =
     (if a < length (action_cells mem) then Inr (action_cells mem ! a)
      else Inl NilPointerDereference)"

definition load_posting :: "memory \<Rightarrow> nat \<Rightarrow> panic + Posting" where
  "load_posting mem p =
     (if p < length (posting_cells mem) then Inr (posting_cells mem ! p)
      else Inl NilPointerDereference)"

definition load_map :: "memory \<Rightarrow> nat \<Rightarrow> captures" where
  "load_map mem m = (if m < length (map_cells mem) then map_cells mem ! m else Map.empty)"

definition new_posting :: "memory \<Rightarrow> Posting \<Rightarrow> nat \<times> memory" where
  "new_posting mem pp =
     (length (posting_cells mem), mem\<lparr>posting_cells := posting_cells mem @ [pp]\<rparr>)"

text \<open>
  The body of \<^verbatim>\<open>Execute\<close>, statement by statement: \<^verbatim>\<open>p.Amount.Mul(a.Amount)\<close>
  loads the posting and the action and dereferences the amount; the callback of
  \<^verbatim>\<open>ReplaceAllStringFunc\<close> reads \<^verbatim>\<open>p.Account\<close> (of the posting already loaded:
  nothing has been written since) and \<^verbatim>\<open>m[s]\<close>; \<^verbatim>\<open>&Posting{...}\<close> allocates. The
  result is the new reference and the memory after the call.
\<close>

definition Execute_mem :: "nat \<Rightarrow> nat \<Rightarrow> nat \<Rightarrow> memory \<Rightarrow> panic + (nat \<times> memory)" where
  "Execute_mem a p m mem =
     (case load_posting mem p of
        Inl pn \<Rightarrow> Inl pn
      | Inr src \<Rightarrow>
          (case load_action mem a of
             Inl pn \<Rightarrow> Inl pn
           | Inr act \<Rightarrow>
               (case Amount src of
                  None \<Rightarrow> Inl NilPointerDereference
                | Some d \<Rightarrow>
                    Inr (new_posting mem
                      \<lparr>Type = ActionType act,
                       Account = ReplaceAllStringFunc (ActionAccount act)
                         (\<lambda>s. let s = Trim s ''${}''
                              in if s = ''account'' then Account src
                                 else index (load_map mem m) s),
                       Amount = Some (d * ActionAmount act),
                       Comment = [],
                       GeneratedBy = 0,
                       From = 0\<rparr>))))"

section \<open>Trigger rewriting\<close>

text \<open>
  The three nested loops of \<^verbatim>\<open>main\<close>, innermost first. \<^verbatim>\<open>p\<close> is the posting at
  index \<open>i\<close>, which the loops never write to; the transaction grows at its end.
\<close>

fun rewrite_actions ::
  "Action list \<Rightarrow> Trigger \<Rightarrow> nat \<Rightarrow> Posting \<Rightarrow> captures \<Rightarrow> Transaction \<Rightarrow> panic + Transaction" where
  "rewrite_actions [] tr i p m tx = Inr tx"
| "rewrite_actions (a # as) tr i p m tx =
     (case Execute a p m of
        Inl pn \<Rightarrow> Inl pn
      | Inr pp \<Rightarrow>
          rewrite_actions as tr i p m
            (tx\<lparr>Postings := Postings tx @ [pp\<lparr>GeneratedBy := ID tr, From := int i + 1\<rparr>]\<rparr>))"

fun rewrite_triggers ::
  "Trigger list \<Rightarrow> nat \<Rightarrow> Posting \<Rightarrow> Transaction \<Rightarrow> (panic + Transaction) option" where
  "rewrite_triggers [] i p tx = Some (Inr tx)"
| "rewrite_triggers (tr # trs) i p tx =
     (if GeneratedBy p = ID tr then rewrite_triggers trs i p tx
      else
        (case Trigger_Match tr tx p of
           None \<Rightarrow> None
         | Some (Inl pn) \<Rightarrow> Some (Inl pn)
         | Some (Inr (b, m)) \<Rightarrow>
             (if \<not> b then rewrite_triggers trs i p tx
              else
                (case rewrite_actions (Actions tr) tr i p m tx of
                   Inl pn \<Rightarrow> Some (Inl pn)
                 | Inr tx' \<Rightarrow> rewrite_triggers trs i p tx'))))"

text \<open>
  The loop \<^verbatim>\<open>for i := 0; i < len(tx.Postings); i++\<close> reads the length again at every
  turn, while the body appends, and the body calls the scripts of the matchers:
  nothing in its shape bounds the number of turns, so it is a partial function,
  \<open>None\<close> standing for a run that never ends. The ceiling is
  1000 in one \<^verbatim>\<open>main\<close> (which panics) and 100 in the other (which prints the
  transaction and exits with status 1); it is the parameter \<open>limit\<close> here, and both ways of
  stopping the run are the one value \<open>PostingCycleDetected\<close>.
\<close>

partial_function (option) rewrite_postings ::
  "nat \<Rightarrow> Trigger list \<Rightarrow> Transaction \<Rightarrow> nat \<Rightarrow> (panic + Transaction) option" where
  "rewrite_postings limit triggers tx i =
     (if i < length (Postings tx) then
        (case rewrite_triggers triggers i (Postings tx ! i) tx of
           None \<Rightarrow> None
         | Some (Inl pn) \<Rightarrow> Some (Inl pn)
         | Some (Inr tx') \<Rightarrow>
             (if length (Postings tx') > limit then Some (Inl PostingCycleDetected)
              else rewrite_postings limit triggers tx' (i + 1)))
      else Some (Inr tx))"

declare rewrite_postings.simps [code]

text \<open>The loop \<^verbatim>\<open>for _, tx := range transactions\<close> around it: the first panic ends the run.\<close>

fun rewrite_transactions ::
  "nat \<Rightarrow> Trigger list \<Rightarrow> Transaction list \<Rightarrow> (panic + Transaction list) option" where
  "rewrite_transactions limit triggers [] = Some (Inr [])"
| "rewrite_transactions limit triggers (tx # txs) =
     (case rewrite_postings limit triggers tx 0 of
        None \<Rightarrow> None
      | Some (Inl pn) \<Rightarrow> Some (Inl pn)
      | Some (Inr tx') \<Rightarrow>
          (case rewrite_transactions limit triggers txs of
             None \<Rightarrow> None
           | Some (Inl pn) \<Rightarrow> Some (Inl pn)
           | Some (Inr txs') \<Rightarrow> Some (Inr (tx' # txs'))))"

section \<open>The balancing stage of main\<close>

text \<open>
  What \<^verbatim>\<open>main\<close> prints for a transaction that fails: the error and the transaction
  as it is at that moment. The state of the loop is the output so far and the flag
  \<^verbatim>\<open>failed\<close>; a panic of \<^verbatim>\<open>Balance\<close> ends the run with the output printed
  until then.
\<close>

datatype report = Report error Transaction

fun balance_transactions ::
  "Transaction list \<Rightarrow> report list \<Rightarrow> bool \<Rightarrow> report list \<times> (panic + Transaction list \<times> bool)" where
  "balance_transactions [] out failed = (out, Inr ([], failed))"
| "balance_transactions (tx # txs) out failed =
     (case AutoBalance tx of
        (tx1, err1) \<Rightarrow>
          (let out1 = (case err1 of None \<Rightarrow> out | Some err \<Rightarrow> out @ [Report err tx1]);
               failed1 = (failed \<or> err1 \<noteq> None)
           in case Balance tx1 of
                Inl pn \<Rightarrow> (out1, Inl pn)
              | Inr err2 \<Rightarrow>
                  (let out2 = (case err2 of None \<Rightarrow> out1 | Some err \<Rightarrow> out1 @ [Report err tx1]);
                       failed2 = (failed1 \<or> err2 \<noteq> None)
                   in case balance_transactions txs out2 failed2 of
                        (out3, Inl pn) \<Rightarrow> (out3, Inl pn)
                      | (out3, Inr (txs', failed3)) \<Rightarrow> (out3, Inr (tx1 # txs', failed3)))))"

text \<open>
  How a stage of \<^verbatim>\<open>main\<close> ends: with a panic, with \<^verbatim>\<open>os.Exit(1)\<close>, or by going
  on to the reports with the transactions as they are now.
\<close>

datatype outcome = Panics panic | Exits int | Continues "Transaction list"

definition balance_stage :: "bool \<Rightarrow> Transaction list \<Rightarrow> report list \<times> outcome" where
  "balance_stage noBalance transactions =
     (if \<not> noBalance then
        (case balance_transactions transactions [] False of
           (out, Inl pn) \<Rightarrow> (out, Panics pn)
         | (out, Inr (txs, failed)) \<Rightarrow> (out, if failed then Exits 1 else Continues txs))
      else ([], Continues transactions))"

text \<open>
  \<^verbatim>\<open>main\<close> from the trigger rewriting to the balancing: the rewriting comes first,
  the balancing sees the transactions it leaves.
\<close>

definition process ::
  "bool \<Rightarrow> bool \<Rightarrow> nat \<Rightarrow> Trigger list \<Rightarrow> Transaction list \<Rightarrow> (report list \<times> outcome) option" where
  "process noTriggers noBalance limit triggers transactions =
     (case (if \<not> noTriggers then rewrite_transactions limit triggers transactions
            else Some (Inr transactions)) of
        None \<Rightarrow> None
      | Some (Inl pn) \<Rightarrow> Some ([], Panics pn)
      | Some (Inr txs) \<Rightarrow> Some (balance_stage noBalance txs))"

section \<open>The helper fy of the scripted matchers\<close>

text \<open>
  The closure \<^verbatim>\<open>parseTrigger\<close> registers as \<^verbatim>\<open>fy\<close>. Go's \<^verbatim>\<open>%\<close> truncates
  towards zero (\<open>smod\<close>), and \<^verbatim>\<open>%d\<close> prints the number without padding.
\<close>

definition fy :: "Time \<Rightarrow> string" where
  "fy t =
     (case Month t of
        January \<Rightarrow> ''FY'' @ Sprintf_d ((Year t - 1) smod 100) @ Sprintf_d (Year t smod 100)
      | February \<Rightarrow> ''FY'' @ Sprintf_d ((Year t - 1) smod 100) @ Sprintf_d (Year t smod 100)
      | March \<Rightarrow> ''FY'' @ Sprintf_d ((Year t - 1) smod 100) @ Sprintf_d (Year t smod 100)
      | April \<Rightarrow> ''FY'' @ Sprintf_d ((Year t - 1) smod 100) @ Sprintf_d (Year t smod 100)
      | May \<Rightarrow> ''FY'' @ Sprintf_d ((Year t - 1) smod 100) @ Sprintf_d (Year t smod 100)
      | June \<Rightarrow> ''FY'' @ Sprintf_d ((Year t - 1) smod 100) @ Sprintf_d (Year t smod 100)
      | _ \<Rightarrow> ''FY'' @ Sprintf_d (Year t smod 100) @ Sprintf_d ((Year t + 1) smod 100))"

section \<open>The account template, in the words of the specification\<close>

text \<open>
  The specification describes the new account name as the template "with every
  \<^verbatim>\<open>${identifier}\<close> substring replaced: \<^verbatim>\<open>${account}\<close> by the source posting's
  account, any other identifier by \<^verbatim>\<open>captures[identifier]\<close> or the empty string if
  absent". \<open>placeholder_value\<close> is the replacement of one identifier, and
  \<open>template_instance val s out\<close> says that \<open>out\<close> is \<open>s\<close> with every placeholder
  replaced by the value of its identifier and every other character kept. An identifier
  is a non-empty run of the characters the pattern of the source allows.
\<close>

definition is_identifier :: "string \<Rightarrow> bool" where
  "is_identifier name = (name \<noteq> [] \<and> list_all ident_char name)"

definition placeholder_value :: "Posting \<Rightarrow> captures \<Rightarrow> string \<Rightarrow> string" where
  "placeholder_value p m name =
     (if name = ''account'' then Account p else (case m name of None \<Rightarrow> [] | Some v \<Rightarrow> v))"

inductive template_instance :: "(string \<Rightarrow> string) \<Rightarrow> string \<Rightarrow> string \<Rightarrow> bool"
  for val :: "string \<Rightarrow> string" where
  finished: "template_instance val [] []"
| placeholder:
    "is_identifier name \<Longrightarrow> template_instance val rest out \<Longrightarrow>
     template_instance val (''${'' @ name @ ''}'' @ rest) (val name @ out)"
| literal:
    "\<not> (\<exists>name rest'. is_identifier name \<and> c # rest = ''${'' @ name @ ''}'' @ rest') \<Longrightarrow>
     template_instance val rest out \<Longrightarrow>
     template_instance val (c # rest) (c # out)"

section \<open>Example ledgers\<close>

text \<open>
  The transaction \<^verbatim>\<open>2024-01-01 Paycheck\<close> with the postings \<^verbatim>\<open>Assets:Bank $1000\<close>
  and \<^verbatim>\<open>Income:Salary\<close> (amount elided), and the same transaction with the
  elided amount filled in.
\<close>

definition paycheck :: Transaction where
  "paycheck =
     \<lparr>Date = \<lparr>Year = 2024, Month = January, Day = 1\<rparr>,
      Description = ''Paycheck'',
      Postings =
        [\<lparr>Type = RealPosting, Account = ''Assets:Bank'', Amount = Some 1000,
          Comment = [], GeneratedBy = 0, From = 0\<rparr>,
         \<lparr>Type = RealPosting, Account = ''Income:Salary'', Amount = None,
          Comment = [], GeneratedBy = 0, From = 0\<rparr>]\<rparr>"

definition paycheck_filled :: Transaction where
  "paycheck_filled =
     \<lparr>Date = \<lparr>Year = 2024, Month = January, Day = 1\<rparr>,
      Description = ''Paycheck'',
      Postings =
        [\<lparr>Type = RealPosting, Account = ''Assets:Bank'', Amount = Some 1000,
          Comment = [], GeneratedBy = 0, From = 0\<rparr>,
         \<lparr>Type = RealPosting, Account = ''Income:Salary'', Amount = Some (- 1000),
          Comment = [], GeneratedBy = 0, From = 0\<rparr>]\<rparr>"

text \<open>A transaction with two elided amounts, and one whose amounts do not sum to zero.\<close>

definition two_elided :: Transaction where
  "two_elided =
     \<lparr>Date = \<lparr>Year = 2024, Month = January, Day = 2\<rparr>,
      Description = ''Groceries'',
      Postings =
        [\<lparr>Type = RealPosting, Account = ''Expenses:Food'', Amount = None,
          Comment = [], GeneratedBy = 0, From = 0\<rparr>,
         \<lparr>Type = RealPosting, Account = ''Assets:Cash'', Amount = None,
          Comment = [], GeneratedBy = 0, From = 0\<rparr>]\<rparr>"

definition off_by_five :: Transaction where
  "off_by_five =
     \<lparr>Date = \<lparr>Year = 2024, Month = January, Day = 3\<rparr>,
      Description = ''Rent'',
      Postings =
        [\<lparr>Type = RealPosting, Account = ''Expenses:Rent'', Amount = Some 500,
          Comment = [], GeneratedBy = 0, From = 0\<rparr>,
         \<lparr>Type = BalancedVirtualPosting, Account = ''Assets:Bank'', Amount = Some (- 495),
          Comment = [], GeneratedBy = 0, From = 0\<rparr>,
         \<lparr>Type = VirtualPosting, Account = ''Budget:Rent'', Amount = Some (- 5),
          Comment = [], GeneratedBy = 0, From = 0\<rparr>]\<rparr>"

text \<open>
  A posting of 1500 to \<^verbatim>\<open>Expenses:rent\<close>, the captures \<^verbatim>\<open>{"1": "rent"}\<close>, and the
  action line \<^verbatim>\<open>(${1}:tax)  0.1 ; ten percent\<close>.
\<close>

definition rent_posting :: Posting where
  "rent_posting =
     \<lparr>Type = RealPosting, Account = ''Expenses:rent'', Amount = Some 1500,
      Comment = ''June'', GeneratedBy = 0, From = 0\<rparr>"

definition rent_captures :: captures where
  "rent_captures = [''1'' \<mapsto> ''rent'']"

definition tax_action :: Action where
  "tax_action =
     \<lparr>ActionType = VirtualPosting, ActionAccount = ''${1}:tax'', ActionAmount = 1 / 10,
      ActionComment = ''ten percent''\<rparr>"

text \<open>
  Triggers for the examples. \<open>exactly lit\<close> stands for a compiled pattern that
  matches the string \<open>lit\<close> and nothing else, with no group but the whole match.
  The first two triggers feed each other: one turns \<^verbatim>\<open>Ping\<close> into \<^verbatim>\<open>Pong\<close>,
  the other \<^verbatim>\<open>Pong\<close> into \<^verbatim>\<open>Ping\<close>. The third matches the account its own action
  writes to. The fourth matches the elided posting of the Paycheck transaction.
\<close>

definition exactly :: "string \<Rightarrow> Regexp" where
  "exactly lit s = (if s = lit then Some [s] else None)"

definition ping_trigger :: Trigger where
  "ping_trigger =
     \<lparr>ID = 1, Matchers = [RegexpMatcher (exactly ''Ping'')],
      Actions = [\<lparr>ActionType = RealPosting, ActionAccount = ''Pong'', ActionAmount = 1,
                  ActionComment = []\<rparr>]\<rparr>"

definition pong_trigger :: Trigger where
  "pong_trigger =
     \<lparr>ID = 2, Matchers = [RegexpMatcher (exactly ''Pong'')],
      Actions = [\<lparr>ActionType = RealPosting, ActionAccount = ''Ping'', ActionAmount = 1,
                  ActionComment = []\<rparr>]\<rparr>"

definition ping_tx :: Transaction where
  "ping_tx =
     \<lparr>Date = \<lparr>Year = 2024, Month = February, Day = 1\<rparr>,
      Description = ''Ping pong'',
      Postings =
        [\<lparr>Type = RealPosting, Account = ''Ping'', Amount = Some 1,
          Comment = [], GeneratedBy = 0, From = 0\<rparr>]\<rparr>"

definition tips_trigger :: Trigger where
  "tips_trigger =
     \<lparr>ID = 1, Matchers = [RegexpMatcher (exactly ''Income:Tips'')],
      Actions = [\<lparr>ActionType = VirtualPosting, ActionAccount = ''${account}'', ActionAmount = 1 / 10,
                  ActionComment = []\<rparr>]\<rparr>"

definition tips_tx :: Transaction where
  "tips_tx =
     \<lparr>Date = \<lparr>Year = 2024, Month = February, Day = 2\<rparr>,
      Description = ''Tips'',
      Postings =
        [\<lparr>Type = RealPosting, Account = ''Income:Tips'', Amount = Some (- 50),
          Comment = [], GeneratedBy = 0, From = 0\<rparr>,
         \<lparr>Type = RealPosting, Account = ''Assets:Cash'', Amount = Some 50,
          Comment = [], GeneratedBy = 0, From = 0\<rparr>]\<rparr>"


text \<open>
  The trigger \<^verbatim>\<open>= JS (function(){for(;;){}})()\<close>, whose script never returns, and a
  trigger that matches \<^verbatim>\<open>Income:Salary\<close> and has no action line.
\<close>

definition never_returns :: "Transaction \<Rightarrow> Posting \<Rightarrow> JSValue option" where
  "never_returns tx p = None"

definition hanging_trigger :: Trigger where
  "hanging_trigger =
     \<lparr>ID = 1, Matchers = [JSMatcher never_returns],
      Actions = [\<lparr>ActionType = VirtualPosting, ActionAccount = ''Tax:Withheld'', ActionAmount = 3 / 10,
                  ActionComment = []\<rparr>]\<rparr>"


text \<open>
  The trigger \<^verbatim>\<open>= JS p.Type == 1\<close>, whose script returns on every posting: true on
  the virtual ones.
\<close>

definition is_virtual :: "Transaction \<Rightarrow> Posting \<Rightarrow> JSValue option" where
  "is_virtual tx p = Some (JSBoolean (Type p = VirtualPosting))"

definition returning_trigger :: Trigger where
  "returning_trigger =
     \<lparr>ID = 2, Matchers = [JSMatcher is_virtual],
      Actions = [\<lparr>ActionType = VirtualPosting, ActionAccount = ''Audit:${account}'', ActionAmount = 1,
                  ActionComment = []\<rparr>]\<rparr>"

text \<open>
  The memory of the rent example: the action, the posting and the captures, each the
  only cell of its kind; and the posting \<open>Execute\<close> builds from them.
\<close>

definition rent_memory :: memory where
  "rent_memory =
     \<lparr>action_cells = [tax_action], posting_cells = [rent_posting], map_cells = [rent_captures]\<rparr>"

definition rent_tax_posting :: Posting where
  "rent_tax_posting =
     \<lparr>Type = VirtualPosting, Account = ''rent:tax'', Amount = Some 150, Comment = [],
      GeneratedBy = 0, From = 0\<rparr>"

text \<open>
  The postings that occur while the two triggers feed each other: each has an amount,
  and is a \<^verbatim>\<open>Ping\<close> the first trigger may fire on or a \<^verbatim>\<open>Pong\<close> the second
  may fire on.
\<close>

definition ping_pong_posting :: "Posting \<Rightarrow> bool" where
  "ping_pong_posting p =
     (Amount p \<noteq> None \<and>
      (Account p = ''Ping'' \<and> GeneratedBy p \<noteq> 1 \<or> Account p = ''Pong'' \<and> GeneratedBy p \<noteq> 2))"

text \<open>The Tips transaction after the rewriting: one posting more, a tenth of the tips.\<close>

definition tips_rewritten :: Transaction where
  "tips_rewritten =
     tips_tx\<lparr>Postings := Postings tips_tx @
       [\<lparr>Type = VirtualPosting, Account = ''Income:Tips'', Amount = Some (- 5), Comment = [],
         GeneratedBy = 1, From = 1\<rparr>]\<rparr>"

section \<open>Properties of the balancer\<close>

lemma AutoBalance_loop_all_set:
  "\<forall>p\<in>set es. Amount p \<noteq> None \<Longrightarrow>
   AutoBalance_loop es i toFill tot = Inr (toFill, tot + sum_list (map (\<lambda>p. the (Amount p)) es))"
  by (induction es arbitrary: i tot) (auto simp: add.assoc)

lemma AutoBalance_loop_one:
  "\<forall>p\<in>set pre. Amount p \<noteq> None \<Longrightarrow> \<forall>p\<in>set post. Amount p \<noteq> None \<Longrightarrow> Amount e = None \<Longrightarrow>
   AutoBalance_loop (pre @ e # post) i None tot =
     Inr (Some (i + length pre), tot + sum_list (map (\<lambda>p. the (Amount p)) (pre @ post)))"
proof (induction pre arbitrary: i tot)
  case Nil
  then show ?case by (simp add: AutoBalance_loop_all_set)
next
  case (Cons a pre)
  then show ?case by (auto simp: add.assoc)
qed

lemma AutoBalance_loop_second:
  "toFill \<noteq> None \<Longrightarrow> 1 \<le> length (filter (\<lambda>p. Amount p = None) es) \<Longrightarrow>
   AutoBalance_loop es i toFill tot =
     Inl (Errorf ''AutoBalance: a transaction may only have one elided value'' [])"
  by (induction es arbitrary: i tot) (auto split: option.splits)

lemma AutoBalance_loop_two:
  "2 \<le> length (filter (\<lambda>p. Amount p = None) es) \<Longrightarrow>
   AutoBalance_loop es i None tot =
     Inl (Errorf ''AutoBalance: a transaction may only have one elided value'' [])"
proof (induction es arbitrary: i tot)
  case Nil
  then show ?case by simp
next
  case (Cons e es)
  show ?case
  proof (cases "Amount e")
    case None
    with Cons.prems have "1 \<le> length (filter (\<lambda>p. Amount p = None) es)" by simp
    then show ?thesis using None by (simp add: AutoBalance_loop_second)
  next
    case (Some a)
    with Cons show ?thesis by simp
  qed
qed

lemma filter_one_split:
  "length (filter P xs) = 1 \<Longrightarrow>
   \<exists>pre x post. xs = pre @ x # post \<and> P x \<and> (\<forall>y\<in>set pre. \<not> P y) \<and> (\<forall>y\<in>set post. \<not> P y)"
proof (induction xs)
  case Nil
  then show ?case by simp
next
  case (Cons a xs)
  show ?case
  proof (cases "P a")
    case True
    with Cons.prems have "filter P xs = []" by simp
    then have "\<forall>y\<in>set xs. \<not> P y" by (simp add: filter_empty_conv)
    with True have "a # xs = [] @ a # xs \<and> P a \<and> (\<forall>y\<in>set []. \<not> P y) \<and> (\<forall>y\<in>set xs. \<not> P y)"
      by simp
    then show ?thesis by blast
  next
    case False
    with Cons obtain pre x post where
      "xs = pre @ x # post" "P x" "\<forall>y\<in>set pre. \<not> P y" "\<forall>y\<in>set post. \<not> P y"
      by auto
    with False have "a # xs = (a # pre) @ x # post \<and> P x \<and> (\<forall>y\<in>set (a # pre). \<not> P y) \<and> (\<forall>y\<in>set post. \<not> P y)"
      by simp
    then show ?thesis by blast
  qed
qed

lemma AutoBalance_one_elided:
  assumes "length (filter (\<lambda>p. Amount p = None) (Postings t)) = 1"
  shows "\<exists>pre e post. Postings t = pre @ e # post \<and> Amount e = None \<and>
           (\<forall>p\<in>set (pre @ post). Amount p \<noteq> None) \<and>
           AutoBalance t =
             (t\<lparr>Postings :=
                  pre @ e\<lparr>Amount := Some (- sum_list (map (\<lambda>p. the (Amount p)) (pre @ post)))\<rparr> # post\<rparr>,
              None)"
proof -
  from filter_one_split [OF assms] obtain pre e post where
    split: "Postings t = pre @ e # post" and e: "Amount e = None"
    and pre: "\<forall>p\<in>set pre. Amount p \<noteq> None" and post: "\<forall>p\<in>set post. Amount p \<noteq> None"
    by blast
  have "AutoBalance_loop (Postings t) 0 None 0 =
          Inr (Some (length pre), sum_list (map (\<lambda>p. the (Amount p)) (pre @ post)))"
    using AutoBalance_loop_one [OF pre post e, of 0 0] split by simp
  then have "AutoBalance t =
             (t\<lparr>Postings :=
                  pre @ e\<lparr>Amount := Some (- sum_list (map (\<lambda>p. the (Amount p)) (pre @ post)))\<rparr> # post\<rparr>,
              None)"
    using split by (simp add: AutoBalance_def)
  with split e pre post show ?thesis
    by (metis Un_iff set_append)
qed

lemma paycheck_scenario:
  "AutoBalance paycheck = (paycheck_filled, None) \<and> Balance paycheck_filled = Inr None"
  by (simp add: AutoBalance_def Balance_def paycheck_def paycheck_filled_def)

lemma Balance_loop_all_set:
  "\<forall>p\<in>set es. Amount p \<noteq> None \<Longrightarrow>
   Balance_loop es tot =
     Inr (tot + sum_list (map (\<lambda>p. the (Amount p)) (filter (\<lambda>p. Type p \<noteq> VirtualPosting) es)))"
  by (induction es arbitrary: tot) (auto simp: add.assoc)

text \<open>
  C1. In a transaction with exactly one elided amount, \<open>AutoBalance\<close> returns no error
  and writes into the elided posting the negation of the sum of the amounts of all the
  other postings, whatever their type (the sum runs over the postings before and after
  it, virtual ones included); every other posting is left as it was. In particular the
  Paycheck transaction gets \<open>- 1000\<close> for \<^verbatim>\<open>Income:Salary\<close>, and \<open>Balance\<close> then
  accepts it.
\<close>

theorem AutoBalance_fills_elided_amount:
  "(length (filter (\<lambda>p. Amount p = None) (Postings t)) = 1 \<longrightarrow>
      (\<exists>pre e post. Postings t = pre @ e # post \<and> Amount e = None \<and>
         (\<forall>p\<in>set (pre @ post). Amount p \<noteq> None) \<and>
         AutoBalance t =
           (t\<lparr>Postings :=
                pre @ e\<lparr>Amount := Some (- sum_list (map (\<lambda>p. the (Amount p)) (pre @ post)))\<rparr> # post\<rparr>,
            None)))
   \<and> AutoBalance paycheck = (paycheck_filled, None)
   \<and> Balance paycheck_filled = Inr None"
  using AutoBalance_one_elided [of t] paycheck_scenario by blast

theorem AutoBalance_fills_elided_amount_witness:
  "length (filter (\<lambda>p. Amount p = None) (Postings paycheck)) = 1 \<and>
   (\<exists>pre e post. Postings paycheck = pre @ e # post \<and> Amount e = None \<and>
      (\<forall>p\<in>set (pre @ post). Amount p \<noteq> None) \<and>
      AutoBalance paycheck =
        (paycheck\<lparr>Postings :=
             pre @ e\<lparr>Amount := Some (- sum_list (map (\<lambda>p. the (Amount p)) (pre @ post)))\<rparr> # post\<rparr>,
         None))"
proof -
  have one: "length (filter (\<lambda>p. Amount p = None) (Postings paycheck)) = 1"
    by (simp add: paycheck_def)
  with AutoBalance_fills_elided_amount [of paycheck] show ?thesis
    by blast
qed

text \<open>
  C2. When every posting of a transaction has an amount, \<open>Balance\<close> returns nil exactly
  when the amounts of the postings that are not virtual (real and balanced virtual
  ones alike) sum to zero; otherwise it returns the error whose argument is that sum,
  the residual.
\<close>

theorem Balance_checks_non_virtual_sum:
  assumes "\<forall>p\<in>set (Postings t). Amount p \<noteq> None"
  shows "(Balance t = Inr None \<longleftrightarrow>
            sum_list (map (\<lambda>p. the (Amount p))
              (filter (\<lambda>p. Type p \<noteq> VirtualPosting) (Postings t))) = 0)
         \<and> (sum_list (map (\<lambda>p. the (Amount p))
              (filter (\<lambda>p. Type p \<noteq> VirtualPosting) (Postings t))) \<noteq> 0 \<longrightarrow>
            Balance t =
              Inr (Some (Errorf ''Balance: transactions must balance to zero; instead got %s''
                [sum_list (map (\<lambda>p. the (Amount p))
                   (filter (\<lambda>p. Type p \<noteq> VirtualPosting) (Postings t)))])))"
  using Balance_loop_all_set [OF assms, of 0] by (simp add: Balance_def)

theorem Balance_checks_non_virtual_sum_witness:
  "Balance paycheck_filled = Inr None \<and>
   Balance off_by_five =
     Inr (Some (Errorf ''Balance: transactions must balance to zero; instead got %s'' [5]))"
proof -
  have a: "\<forall>p\<in>set (Postings off_by_five). Amount p \<noteq> None"
    by (simp add: off_by_five_def)
  have b: "\<forall>p\<in>set (Postings paycheck_filled). Amount p \<noteq> None"
    by (simp add: paycheck_filled_def)
  show ?thesis
    using Balance_checks_non_virtual_sum [OF a] Balance_checks_non_virtual_sum [OF b]
    by (simp add: off_by_five_def paycheck_filled_def)
qed

text \<open>
  C6. In a transaction with two or more elided amounts, \<open>AutoBalance\<close> returns the
  error "a transaction may only have one elided value" and the transaction is exactly
  as it was: no posting has been written to.
\<close>

theorem AutoBalance_rejects_two_elided:
  assumes "2 \<le> length (filter (\<lambda>p. Amount p = None) (Postings t))"
  shows "AutoBalance t =
           (t, Some (Errorf ''AutoBalance: a transaction may only have one elided value'' []))"
  using AutoBalance_loop_two [OF assms, of 0 0] by (simp add: AutoBalance_def)

theorem AutoBalance_rejects_two_elided_witness:
  "2 \<le> length (filter (\<lambda>p. Amount p = None) (Postings two_elided)) \<and>
   AutoBalance two_elided =
     (two_elided, Some (Errorf ''AutoBalance: a transaction may only have one elided value'' []))"
proof -
  have two: "2 \<le> length (filter (\<lambda>p. Amount p = None) (Postings two_elided))"
    by (simp add: two_elided_def)
  from two AutoBalance_rejects_two_elided [OF two] show ?thesis
    by simp
qed

section \<open>Properties of Execute\<close>

lemma ident_char_not_brace: "ident_char c \<Longrightarrow> c \<noteq> CHR ''}'' \<and> c \<noteq> CHR ''{'' \<and> c \<noteq> CHR ''$''"
  by (auto simp: ident_char_def)

lemma closing_brace_not_ident: "\<not> ident_char CHR ''}''"
  by (simp add: ident_char_def)

lemma takeWhile_identifier:
  "list_all ident_char name \<Longrightarrow> takeWhile ident_char (name @ CHR ''}'' # rest) = name"
  by (induction name) (auto simp: ident_char_def)

lemma dropWhile_identifier:
  "list_all ident_char name \<Longrightarrow> dropWhile ident_char (name @ CHR ''}'' # rest) = CHR ''}'' # rest"
  by (induction name) (auto simp: ident_char_def)

lemma match_prefix_placeholder:
  "is_identifier name \<Longrightarrow>
   match_prefix (''${'' @ name @ ''}'' @ rest) = Some (''${'' @ name @ ''}'', rest)"
  by (simp add: match_prefix_def is_identifier_def Let_def takeWhile_identifier dropWhile_identifier
      closing_brace_not_ident)

lemma match_prefix_Some:
  assumes "match_prefix s = Some (mt, rest)"
  shows "\<exists>name. is_identifier name \<and> mt = ''${'' @ name @ ''}'' \<and> s = ''${'' @ name @ ''}'' @ rest"
proof -
  from assms obtain r where s: "s = CHR ''$'' # CHR ''{'' # r"
    and name: "takeWhile ident_char r \<noteq> []"
    and r': "dropWhile ident_char r \<noteq> []" "hd (dropWhile ident_char r) = CHR ''}''"
    and mt: "mt = ''${'' @ takeWhile ident_char r @ ''}''"
    and rest: "rest = tl (dropWhile ident_char r)"
    by (auto simp: match_prefix_def Let_def split: list.splits if_splits)
  from r' have "dropWhile ident_char r = CHR ''}'' # tl (dropWhile ident_char r)"
    by (cases "dropWhile ident_char r") auto
  then have "r = takeWhile ident_char r @ CHR ''}'' # rest"
    using rest takeWhile_dropWhile_id [of ident_char r] by metis
  moreover have "is_identifier (takeWhile ident_char r)"
    using name by (simp add: is_identifier_def list_all_iff) (meson set_takeWhileD)
  ultimately show ?thesis using s mt by auto
qed

lemma Trim_placeholder:
  assumes "is_identifier name"
  shows "Trim (''${'' @ name @ ''}'') ''${}'' = name"
proof -
  from assms obtain c cs where name: "name = c # cs" and all: "list_all ident_char name"
    by (cases name) (auto simp: is_identifier_def)
  let ?cut = "\<lambda>c. c \<in> set ''${}''"
  have hd: "\<not> ?cut (hd name)" using name all ident_char_not_brace [of c] by auto
  have "name \<noteq> []" using name by simp
  then have lst: "\<not> ?cut (last name)"
    using all ident_char_not_brace [of "last name"] by (auto simp: list_all_iff)
  have 1: "dropWhile ?cut (''${'' @ name @ ''}'') = name @ ''}''"
    using hd name by auto
  have "rev (name @ ''}'') = CHR ''}'' # rev name" by simp
  moreover have "dropWhile ?cut (rev name) = rev name"
    using lst \<open>name \<noteq> []\<close> by (cases "rev name") (auto simp: last_rev hd_rev)
  ultimately have 2: "dropWhile ?cut (rev (name @ ''}'')) = rev name"
    by simp
  show ?thesis unfolding Trim_def 1 2 by simp
qed

lemma ReplaceAllStringFunc_placeholder:
  assumes "is_identifier name"
  shows "ReplaceAllStringFunc (''${'' @ name @ ''}'' @ rest) (\<lambda>x. val (Trim x ''${}'')) =
           val name @ ReplaceAllStringFunc rest (\<lambda>x. val (Trim x ''${}''))"
  using match_prefix_placeholder [OF assms, of rest] Trim_placeholder [OF assms]
  by simp

lemma ReplaceAllStringFunc_instance:
  "template_instance val s (ReplaceAllStringFunc s (\<lambda>x. val (Trim x ''${}'')))"
proof (induction s "\<lambda>x. val (Trim x ''${}'')" rule: ReplaceAllStringFunc.induct)
  case 1
  show ?case by (simp add: template_instance.finished)
next
  case (2 c cs)
  show ?case
  proof (cases "match_prefix (c # cs)")
    case None
    have "\<not> (\<exists>name rest'. is_identifier name \<and> c # cs = ''${'' @ name @ ''}'' @ rest')"
    proof
      assume "\<exists>name rest'. is_identifier name \<and> c # cs = ''${'' @ name @ ''}'' @ rest'"
      then obtain name rest' where "is_identifier name" "c # cs = ''${'' @ name @ ''}'' @ rest'"
        by blast
      then have "match_prefix (c # cs) \<noteq> None"
        using match_prefix_placeholder [of name rest'] by simp
      with None show False by simp
    qed
    with 2(1) [OF None] None show ?thesis
      by (simp add: template_instance.literal)
  next
    case (Some a)
    obtain mt rest where a: "a = (mt, rest)" by (cases a)
    with Some have m: "match_prefix (c # cs) = Some (mt, rest)" by simp
    from match_prefix_Some [OF m] obtain name where
      name: "is_identifier name" "mt = ''${'' @ name @ ''}''" "c # cs = ''${'' @ name @ ''}'' @ rest"
      by blast
    have "template_instance val rest (ReplaceAllStringFunc rest (\<lambda>x. val (Trim x ''${}'')))"
      using 2(2) [OF Some a [symmetric]] .
    with name(1) have "template_instance val (''${'' @ name @ ''}'' @ rest)
                 (val name @ ReplaceAllStringFunc rest (\<lambda>x. val (Trim x ''${}'')))"
      by (rule template_instance.placeholder)
    moreover have "ReplaceAllStringFunc (''${'' @ name @ ''}'' @ rest) (\<lambda>x. val (Trim x ''${}'')) =
                     val name @ ReplaceAllStringFunc rest (\<lambda>x. val (Trim x ''${}''))"
      using name(1) by (rule ReplaceAllStringFunc_placeholder)
    ultimately show ?thesis using name(3) by simp
  qed
qed

lemma template_instance_unique:
  "template_instance val s out \<Longrightarrow> out = ReplaceAllStringFunc s (\<lambda>x. val (Trim x ''${}''))"
proof (induction rule: template_instance.induct)
  case finished
  show ?case by simp
next
  case (placeholder name rest out)
  with ReplaceAllStringFunc_placeholder [of name rest val] show ?case
    by simp
next
  case (literal c rest out)
  have "match_prefix (c # rest) = None"
  proof (cases "match_prefix (c # rest)")
    case None then show ?thesis .
  next
    case (Some a)
    obtain mt r where "a = (mt, r)" by (cases a)
    with Some match_prefix_Some [of "c # rest" mt r] literal.hyps(1) show ?thesis by blast
  qed
  with literal show ?case by simp
qed

text \<open>
  C5. When the source posting has an amount, \<open>Execute\<close> returns a posting whose amount
  is that amount times the multiplier of the action, and whose account is the one and
  only instance of the account template: every \<^verbatim>\<open>${identifier}\<close> is replaced,
  \<^verbatim>\<open>${account}\<close> by the account of the source posting and any other identifier by
  its capture, or by the empty string when it has none. With a capture \<^verbatim>\<open>"1"\<close> of
  \<^verbatim>\<open>rent\<close> the template \<^verbatim>\<open>${1}:tax\<close> gives \<^verbatim>\<open>rent:tax\<close>.
\<close>

theorem Execute_amount_and_account:
  assumes "Amount p = Some d"
  shows "\<exists>pp. Execute a p m = Inr pp
           \<and> Amount pp = Some (d * ActionAmount a)
           \<and> (\<forall>out. template_instance (placeholder_value p m) (ActionAccount a) out
                  \<longleftrightarrow> out = Account pp)
           \<and> (m ''1'' = Some ''rent'' \<and> ActionAccount a = ''${1}:tax''
                  \<longrightarrow> Account pp = ''rent:tax'')"
proof -
  let ?repl = "\<lambda>s. let s = Trim s ''${}'' in if s = ''account'' then Account p else index m s"
  let ?pp = "\<lparr>Type = ActionType a, Account = ReplaceAllStringFunc (ActionAccount a) ?repl,
              Amount = Some (d * ActionAmount a), Comment = [], GeneratedBy = 0, From = 0\<rparr>"
  have repl: "?repl = (\<lambda>x. placeholder_value p m (Trim x ''${}''))"
    by (rule ext) (simp add: placeholder_value_def index_def Let_def)
  have ex: "Execute a p m = Inr ?pp"
    using assms by (simp add: Execute_def)
  have inst: "template_instance (placeholder_value p m) (ActionAccount a) out \<longleftrightarrow> out = Account ?pp"
    for out
    using ReplaceAllStringFunc_instance [of "placeholder_value p m" "ActionAccount a"]
      template_instance_unique [of "placeholder_value p m" "ActionAccount a" out]
    by (auto simp: repl)
  have rent: "Account ?pp = ''rent:tax''"
    if "m ''1'' = Some ''rent''" and "ActionAccount a = ''${1}:tax''"
    using that by (simp add: match_prefix_def ident_char_def Trim_def index_def)
  from ex inst rent show ?thesis
    by (intro exI [of _ ?pp]) simp
qed

theorem Execute_amount_and_account_witness:
  "\<exists>pp. Execute tax_action rent_posting rent_captures = Inr pp
     \<and> Amount pp = Some 150
     \<and> Account pp = ''rent:tax''"
proof -
  have amt: "Amount rent_posting = Some 1500"
    by (simp add: rent_posting_def)
  from Execute_amount_and_account [OF amt, of tax_action rent_captures]
  show ?thesis
    by (auto simp: tax_action_def rent_captures_def)
qed

text \<open>
  C8, as the claim states it, fails: the posting \<open>Execute\<close> builds for the action
  \<^verbatim>\<open>(${1}:tax)  0.1 ; ten percent\<close> has the empty comment, not the comment of the
  action.
\<close>

theorem Execute_comment_counterexample:
  "Execute tax_action rent_posting rent_captures =
     Inr \<lparr>Type = VirtualPosting, Account = ''rent:tax'', Amount = Some 150, Comment = [],
          GeneratedBy = 0, From = 0\<rparr>
   \<and> ActionComment tax_action = ''ten percent''"
  by (simp add: Execute_def tax_action_def rent_posting_def rent_captures_def
      match_prefix_def ident_char_def Trim_def index_def)

lemma Execute_mem_Execute:
  assumes "Execute_mem a p m mem = Inr (new, mem')"
  shows "\<exists>pp. Execute (action_cells mem ! a) (posting_cells mem ! p) (load_map mem m) = Inr pp
           \<and> a < length (action_cells mem) \<and> p < length (posting_cells mem)
           \<and> new = length (posting_cells mem)
           \<and> mem' = mem\<lparr>posting_cells := posting_cells mem @ [pp]\<rparr>"
  using assms
  by (auto simp: Execute_mem_def Execute_def load_posting_def load_action_def new_posting_def
      split: if_splits option.splits)

text \<open>
  C8, amended. A posting that \<open>Execute\<close> returns has the type of the action; its
  comment is empty, whatever the comment of the action is (and its provenance fields
  are zero until the caller sets them). The call has no effect but the new posting:
  the memory after it is the memory before it with the one posting added at a new
  reference, so the source posting, every map, the captures among them, and every
  action are as they were. The posting added is the one \<open>Execute\<close> computes from the
  values read.
\<close>

theorem Execute_copies_type_only:
  assumes "Execute_mem a p m mem = Inr (new, mem')"
  shows "Type (posting_cells mem' ! new) = ActionType (action_cells mem ! a)
         \<and> Comment (posting_cells mem' ! new) = []
         \<and> GeneratedBy (posting_cells mem' ! new) = 0
         \<and> From (posting_cells mem' ! new) = 0
         \<and> Execute (action_cells mem ! a) (posting_cells mem ! p) (load_map mem m) =
              Inr (posting_cells mem' ! new)
         \<and> new = length (posting_cells mem)
         \<and> mem' = mem\<lparr>posting_cells := posting_cells mem @ [posting_cells mem' ! new]\<rparr>
         \<and> posting_cells mem' ! p = posting_cells mem ! p
         \<and> map_cells mem' = map_cells mem
         \<and> load_map mem' m = load_map mem m
         \<and> action_cells mem' = action_cells mem"
proof -
  from Execute_mem_Execute [OF assms] obtain pp where
    pp: "Execute (action_cells mem ! a) (posting_cells mem ! p) (load_map mem m) = Inr pp"
    and p: "p < length (posting_cells mem)"
    and new: "new = length (posting_cells mem)"
    and mem': "mem' = mem\<lparr>posting_cells := posting_cells mem @ [pp]\<rparr>"
    by blast
  from pp have "Type pp = ActionType (action_cells mem ! a) \<and> Comment pp = []
      \<and> GeneratedBy pp = 0 \<and> From pp = 0"
    by (auto simp: Execute_def split: option.splits)
  with pp p new mem' show ?thesis
    by (simp add: nth_append load_map_def)
qed

theorem Execute_copies_type_only_witness:
  "Execute_mem 0 0 0 rent_memory =
     Inr (1, rent_memory\<lparr>posting_cells := [rent_posting, rent_tax_posting]\<rparr>)
   \<and> Type rent_tax_posting = ActionType tax_action
   \<and> Comment rent_tax_posting = []
   \<and> map_cells (rent_memory\<lparr>posting_cells := [rent_posting, rent_tax_posting]\<rparr>) = [rent_captures]"
proof -
  have call: "Execute_mem 0 0 0 rent_memory =
     Inr (1, rent_memory\<lparr>posting_cells := [rent_posting, rent_tax_posting]\<rparr>)"
    by (simp add: Execute_mem_def load_posting_def load_action_def load_map_def new_posting_def
        rent_memory_def rent_tax_posting_def tax_action_def rent_posting_def rent_captures_def
        match_prefix_def ident_char_def Trim_def index_def)
  from Execute_copies_type_only [OF call] show ?thesis
    using call by (simp add: rent_memory_def)
qed

section \<open>Properties of the trigger rewriting\<close>

lemma rewrite_actions_appends:
  "rewrite_actions as tr i p m tx = Inr tx' \<Longrightarrow>
   \<exists>new. tx' = tx\<lparr>Postings := Postings tx @ new\<rparr> \<and> length new = length as \<and>
     (\<forall>pp\<in>set new. GeneratedBy pp = ID tr \<and> From pp = int i + 1 \<and> Amount pp \<noteq> None)"
proof (induction as arbitrary: tx)
  case Nil
  then show ?case by simp
next
  case (Cons a as)
  from Cons.prems obtain pp where ex: "Execute a p m = Inr pp"
    and rest: "rewrite_actions as tr i p m
        (tx\<lparr>Postings := Postings tx @ [pp\<lparr>GeneratedBy := ID tr, From := int i + 1\<rparr>]\<rparr>) = Inr tx'"
    by (auto split: sum.splits)
  from ex have amt: "Amount pp \<noteq> None"
    by (auto simp: Execute_def split: option.splits)
  from Cons.IH [OF rest] obtain new where
    new: "tx' = tx\<lparr>Postings := Postings tx @ [pp\<lparr>GeneratedBy := ID tr, From := int i + 1\<rparr>]\<rparr>
                  \<lparr>Postings := Postings (tx\<lparr>Postings := Postings tx @ [pp\<lparr>GeneratedBy := ID tr, From := int i + 1\<rparr>]\<rparr>) @ new\<rparr>"
      "length new = length as"
      "\<forall>pp\<in>set new. GeneratedBy pp = ID tr \<and> From pp = int i + 1 \<and> Amount pp \<noteq> None"
    by blast
  let ?new = "pp\<lparr>GeneratedBy := ID tr, From := int i + 1\<rparr> # new"
  have "tx' = tx\<lparr>Postings := Postings tx @ ?new\<rparr>"
    using new(1) by simp
  moreover have "length ?new = length (a # as)"
    using new(2) by simp
  moreover have "\<forall>pp\<in>set ?new. GeneratedBy pp = ID tr \<and> From pp = int i + 1 \<and> Amount pp \<noteq> None"
    using new(3) amt by simp
  ultimately show ?case by blast
qed

lemma rewrite_triggers_appends:
  "rewrite_triggers trs i p tx = Some (Inr tx') \<Longrightarrow>
   \<exists>new. tx' = tx\<lparr>Postings := Postings tx @ new\<rparr> \<and>
     (\<forall>pp\<in>set new. GeneratedBy pp \<noteq> GeneratedBy p \<and> GeneratedBy pp \<in> ID ` set trs \<and>
        From pp = int i + 1 \<and> Amount pp \<noteq> None)"
proof (induction trs arbitrary: tx)
  case Nil
  then have "tx' = tx\<lparr>Postings := Postings tx @ []\<rparr>" by simp
  then show ?case by (intro exI [of _ "[]"]) simp
next
  case (Cons tr trs)
  show ?case
  proof (cases "GeneratedBy p = ID tr")
    case True
    with Cons.prems have "rewrite_triggers trs i p tx = Some (Inr tx')" by simp
    from Cons.IH [OF this] show ?thesis by auto
  next
    case False
    from Cons.prems False obtain b m where tm: "Trigger_Match tr tx p = Some (Inr (b, m))"
      by (auto split: sum.splits option.splits)
    show ?thesis
    proof (cases b)
      case False
      with Cons.prems \<open>GeneratedBy p \<noteq> ID tr\<close> tm have "rewrite_triggers trs i p tx = Some (Inr tx')"
        by simp
      from Cons.IH [OF this] show ?thesis by auto
    next
      case True
      with Cons.prems \<open>GeneratedBy p \<noteq> ID tr\<close> tm obtain tx1 where
        acts: "rewrite_actions (Actions tr) tr i p m tx = Inr tx1"
        and rest: "rewrite_triggers trs i p tx1 = Some (Inr tx')"
        by (auto split: sum.splits)
      from rewrite_actions_appends [OF acts] obtain new1 where
        new1: "tx1 = tx\<lparr>Postings := Postings tx @ new1\<rparr>"
          "\<forall>pp\<in>set new1. GeneratedBy pp = ID tr \<and> From pp = int i + 1 \<and> Amount pp \<noteq> None"
        by blast
      from Cons.IH [OF rest] obtain new2 where
        new2: "tx' = tx1\<lparr>Postings := Postings tx1 @ new2\<rparr>"
          "\<forall>pp\<in>set new2. GeneratedBy pp \<noteq> GeneratedBy p \<and> GeneratedBy pp \<in> ID ` set trs \<and>
             From pp = int i + 1 \<and> Amount pp \<noteq> None"
        by blast
      have "tx' = tx\<lparr>Postings := Postings tx @ (new1 @ new2)\<rparr>"
        using new1(1) new2(1) by simp
      moreover have "\<forall>pp\<in>set (new1 @ new2). GeneratedBy pp \<noteq> GeneratedBy p \<and>
          GeneratedBy pp \<in> ID ` set (tr # trs) \<and> From pp = int i + 1 \<and> Amount pp \<noteq> None"
        using new1(2) new2(2) \<open>GeneratedBy p \<noteq> ID tr\<close> by auto
      ultimately show ?thesis by blast
    qed
  qed
qed

lemma rewrite_triggers_length:
  "rewrite_triggers trs i p tx = Some (Inr tx') \<Longrightarrow> length (Postings tx) \<le> length (Postings tx')"
  using rewrite_triggers_appends [of trs i p tx tx'] by auto

lemma rewrite_postings_induct [case_names step]:
  assumes step: "\<And>tx i.
     (\<And>tx'. i < length (Postings tx) \<Longrightarrow>
        rewrite_triggers trs i (Postings tx ! i) tx = Some (Inr tx') \<Longrightarrow>
        \<not> limit < length (Postings tx') \<Longrightarrow> P tx' (i + 1)) \<Longrightarrow> P tx i"
  shows "P tx i"
proof (induction "limit - i" arbitrary: tx i rule: less_induct)
  case less
  show ?case
  proof (rule step)
    fix tx'
    assume i: "i < length (Postings tx)"
      and tr: "rewrite_triggers trs i (Postings tx ! i) tx = Some (Inr tx')"
      and lim: "\<not> limit < length (Postings tx')"
    from rewrite_triggers_length [OF tr] i lim have "limit - (i + 1) < limit - i"
      by simp
    then show "P tx' (i + 1)" by (rule less)
  qed
qed

lemma Matcher_Match_returns:
  "matcher_returns e \<Longrightarrow> \<exists>r. Matcher_Match e tx p = Some r"
proof (cases e)
  case (RegexpMatcher r)
  then show ?thesis by simp
next
  case (JSMatcher fn)
  assume "matcher_returns e"
  with JSMatcher obtain v where "fn tx p = Some v" by auto
  with JSMatcher show ?thesis
    by (cases v) (auto simp: JSMatcher_Match_def split: sum.splits)
qed

lemma Trigger_Match_loop_returns:
  "\<forall>e\<in>set es. matcher_returns e \<Longrightarrow> \<exists>r. Trigger_Match_loop es tx p m = Some r"
proof (induction es arbitrary: m)
  case Nil
  show ?case by simp
next
  case (Cons e es)
  from Cons.prems Matcher_Match_returns [of e tx p] obtain r where
    r: "Matcher_Match e tx p = Some r"
    by auto
  from Cons.prems have rest: "\<forall>e\<in>set es. matcher_returns e" by simp
  show ?case
    using r Cons.IH [OF rest] by (cases r) (auto split: prod.splits)
qed

lemma rewrite_triggers_returns:
  "\<forall>tr\<in>set trs. \<forall>e\<in>set (Matchers tr). matcher_returns e \<Longrightarrow>
   \<exists>r. rewrite_triggers trs i p tx = Some r"
proof (induction trs arbitrary: tx)
  case Nil
  show ?case by simp
next
  case (Cons tr trs)
  from Cons.prems have rest: "\<forall>tr\<in>set trs. \<forall>e\<in>set (Matchers tr). matcher_returns e"
    by simp
  from Cons.prems Trigger_Match_loop_returns [of "Matchers tr" tx p Map.empty]
  obtain r where r: "Trigger_Match tr tx p = Some r"
    by (auto simp: Trigger_Match_def)
  show ?case
    using r Cons.IH [OF rest] by (auto split: sum.splits prod.splits)
qed

lemma rewrite_postings_terminates:
  assumes ret: "\<forall>tr\<in>set trs. \<forall>e\<in>set (Matchers tr). matcher_returns e"
  shows "\<exists>r. rewrite_postings limit trs tx i = Some r"
proof (induction tx i rule: rewrite_postings_induct [where trs = trs and limit = limit])
  case (step tx i)
  show ?case
  proof (cases "i < length (Postings tx)")
    case False
    then show ?thesis by (subst rewrite_postings.simps) simp
  next
    case True
    from rewrite_triggers_returns [OF ret, of i "Postings tx ! i" tx] obtain r where
      r: "rewrite_triggers trs i (Postings tx ! i) tx = Some r"
      by blast
    show ?thesis
    proof (cases r)
      case (Inl pn)
      with True r show ?thesis by (subst rewrite_postings.simps) simp
    next
      case (Inr tx')
      with r have tr: "rewrite_triggers trs i (Postings tx ! i) tx = Some (Inr tx')" by simp
      show ?thesis
      proof (cases "limit < length (Postings tx')")
        case True
        with \<open>i < length (Postings tx)\<close> tr show ?thesis by (subst rewrite_postings.simps) simp
      next
        case False
        from step [OF True tr False] obtain r' where
          "rewrite_postings limit trs tx' (i + 1) = Some r'"
          by blast
        with True tr False show ?thesis by (subst rewrite_postings.simps) simp
      qed
    qed
  qed
qed

lemma rewrite_transactions_terminates:
  assumes ret: "\<forall>tr\<in>set trs. \<forall>e\<in>set (Matchers tr). matcher_returns e"
  shows "\<exists>r. rewrite_transactions limit trs txs = Some r"
proof (induction txs)
  case Nil
  show ?case by simp
next
  case (Cons tx txs)
  from rewrite_postings_terminates [OF ret, of limit tx 0] obtain r where
    "rewrite_postings limit trs tx 0 = Some r"
    by blast
  with Cons show ?case
    by (cases r) (auto split: sum.splits)
qed

lemma rewrite_postings_step:
  assumes "rewrite_postings limit trs tx i = Some (Inr tx')" and "i < length (Postings tx)"
  shows "\<exists>tx1. rewrite_triggers trs i (Postings tx ! i) tx = Some (Inr tx1)
           \<and> \<not> limit < length (Postings tx1)
           \<and> rewrite_postings limit trs tx1 (i + 1) = Some (Inr tx')"
  using assms
  by (subst (asm) rewrite_postings.simps) (auto split: option.splits sum.splits if_splits)

lemma rewrite_postings_bounded:
  "rewrite_postings limit trs tx i = Some (Inr tx') \<Longrightarrow>
   (if i < length (Postings tx) then length (Postings tx') \<le> limit else tx' = tx)"
proof (induction tx i rule: rewrite_postings_induct [where trs = trs and limit = limit])
  case (step tx i)
  show ?case
  proof (cases "i < length (Postings tx)")
    case False
    with step.prems show ?thesis by (subst (asm) rewrite_postings.simps) simp
  next
    case True
    from rewrite_postings_step [OF step.prems True] obtain tx1 where
      tr: "rewrite_triggers trs i (Postings tx ! i) tx = Some (Inr tx1)"
      and lim: "\<not> limit < length (Postings tx1)"
      and rec: "rewrite_postings limit trs tx1 (i + 1) = Some (Inr tx')"
      by blast
    from step.IH [OF True tr lim rec] lim have "length (Postings tx') \<le> limit"
      by (auto split: if_splits)
    with True show ?thesis by simp
  qed
qed

lemma rewrite_postings_cycle_check:
  assumes "i < length (Postings tx)"
    and "rewrite_triggers trs i (Postings tx ! i) tx = Some (Inr tx1)"
    and "limit < length (Postings tx1)"
  shows "rewrite_postings limit trs tx i = Some (Inl PostingCycleDetected)"
  using assms by (subst rewrite_postings.simps) simp

lemma rewrite_triggers_skips_own:
  "rewrite_triggers trs i p tx =
   rewrite_triggers (filter (\<lambda>tr. ID tr \<noteq> GeneratedBy p) trs) i p tx"
proof (induction trs arbitrary: tx)
  case Nil
  show ?case by simp
next
  case (Cons tr trs)
  show ?case
  proof (cases "GeneratedBy p = ID tr")
    case True
    then show ?thesis using Cons.IH [of tx] by simp
  next
    case False
    then have "ID tr \<noteq> GeneratedBy p" by auto
    then show ?thesis using Cons.IH by (auto split: sum.splits option.splits)
  qed
qed

lemma ping_pong_step:
  assumes "ping_pong_posting p"
  shows "\<exists>pp. rewrite_triggers [ping_trigger, pong_trigger] i p tx = Some (Inr (tx\<lparr>Postings := Postings tx @ [pp]\<rparr>))
           \<and> ping_pong_posting pp"
proof -
  from assms obtain d where d: "Amount p = Some d"
    by (auto simp: ping_pong_posting_def)
  from assms consider
    (ping) "Account p = ''Ping''" "GeneratedBy p \<noteq> 1" | (pong) "Account p = ''Pong''" "GeneratedBy p \<noteq> 2"
    by (auto simp: ping_pong_posting_def)
  then show ?thesis
  proof cases
    case ping
    let ?pp = "\<lparr>Type = RealPosting, Account = ''Pong'', Amount = Some d, Comment = [],
                GeneratedBy = 1, From = int i + 1\<rparr>"
    have "rewrite_triggers [ping_trigger, pong_trigger] i p tx = Some (Inr (tx\<lparr>Postings := Postings tx @ [?pp]\<rparr>))"
      using ping d
      by (simp add: ping_trigger_def pong_trigger_def Trigger_Match_def RegexpMatcher_Match_def
          MatchString_def FindStringSubmatch_def exactly_def Execute_def match_prefix_def)
    moreover have "ping_pong_posting ?pp"
      by (simp add: ping_pong_posting_def)
    ultimately show ?thesis by blast
  next
    case pong
    let ?pp = "\<lparr>Type = RealPosting, Account = ''Ping'', Amount = Some d, Comment = [],
                GeneratedBy = 2, From = int i + 1\<rparr>"
    have "rewrite_triggers [ping_trigger, pong_trigger] i p tx = Some (Inr (tx\<lparr>Postings := Postings tx @ [?pp]\<rparr>))"
      using pong d
      by (simp add: ping_trigger_def pong_trigger_def Trigger_Match_def RegexpMatcher_Match_def
          MatchString_def FindStringSubmatch_def exactly_def Execute_def match_prefix_def)
    moreover have "ping_pong_posting ?pp"
      by (simp add: ping_pong_posting_def)
    ultimately show ?thesis by blast
  qed
qed

lemma ping_pong_cycles:
  "length (Postings tx) = i + 1 \<Longrightarrow> ping_pong_posting (Postings tx ! i) \<Longrightarrow>
   rewrite_postings limit [ping_trigger, pong_trigger] tx i = Some (Inl PostingCycleDetected)"
proof (induction tx i rule: rewrite_postings_induct [where trs = "[ping_trigger, pong_trigger]" and limit = limit])
  case (step tx i)
  from ping_pong_step [OF step.prems(2), of i tx] obtain pp where
    tr: "rewrite_triggers [ping_trigger, pong_trigger] i (Postings tx ! i) tx =
           Some (Inr (tx\<lparr>Postings := Postings tx @ [pp]\<rparr>))"
    and pp: "ping_pong_posting pp"
    by blast
  let ?tx' = "tx\<lparr>Postings := Postings tx @ [pp]\<rparr>"
  have i: "i < length (Postings tx)" using step.prems(1) by simp
  show ?case
  proof (cases "limit < length (Postings ?tx')")
    case True
    with i tr show ?thesis by (subst rewrite_postings.simps) simp
  next
    case False
    have "length (Postings ?tx') = (i + 1) + 1" using step.prems(1) by simp
    moreover have "ping_pong_posting (Postings ?tx' ! (i + 1))"
      using step.prems(1) pp by (simp add: nth_append)
    ultimately have "rewrite_postings limit [ping_trigger, pong_trigger] ?tx' (i + 1) =
        Some (Inl PostingCycleDetected)"
      using step.IH [OF i tr False] by blast
    with i tr False show ?thesis by (subst rewrite_postings.simps) simp
  qed
qed

lemma ping_pong_from_start:
  "rewrite_postings limit [ping_trigger, pong_trigger] ping_tx 0 = Some (Inl PostingCycleDetected)"
  by (rule ping_pong_cycles) (simp_all add: ping_tx_def ping_pong_posting_def)

lemma tips_no_refire:
  "rewrite_postings 1000 [tips_trigger] tips_tx 0 =
     Some (Inr tips_rewritten)"
  by (simp add: rewrite_postings.simps tips_rewritten_def tips_trigger_def tips_tx_def Trigger_Match_def
      RegexpMatcher_Match_def MatchString_def FindStringSubmatch_def exactly_def Execute_def
      match_prefix_def ident_char_def Trim_def index_def)


lemma ping_pong_aborts:
  "process False noBalance limit [ping_trigger, pong_trigger] [ping_tx] =
     Some ([], Panics PostingCycleDetected)"
  by (simp add: process_def ping_pong_from_start)

lemma hanging_trigger_hangs:
  "rewrite_postings 1000 [hanging_trigger] paycheck 0 = None"
  by (subst rewrite_postings.simps)
    (simp add: hanging_trigger_def paycheck_def Trigger_Match_def JSMatcher_Match_def
      never_returns_def)

lemma rewrite_postings_provenance:
  "rewrite_postings limit trs tx i = Some (Inr tx') \<Longrightarrow>
   \<exists>new. tx' = tx\<lparr>Postings := Postings tx @ new\<rparr> \<and>
     (\<forall>k<length new. \<exists>j. i \<le> j \<and> j < length (Postings tx) + k \<and>
        From (new ! k) = int j + 1 \<and>
        GeneratedBy (new ! k) \<noteq> GeneratedBy ((Postings tx @ new) ! j))"
proof (induction tx i rule: rewrite_postings_induct [where trs = trs and limit = limit])
  case (step tx i)
  show ?case
  proof (cases "i < length (Postings tx)")
    case False
    with step.prems have "tx' = tx" by (subst (asm) rewrite_postings.simps) simp
    then have "tx' = tx\<lparr>Postings := Postings tx @ []\<rparr>" by simp
    then show ?thesis by (intro exI [of _ "[]"]) simp
  next
    case True
    from rewrite_postings_step [OF step.prems True] obtain tx1 where
      tr: "rewrite_triggers trs i (Postings tx ! i) tx = Some (Inr tx1)"
      and lim: "\<not> limit < length (Postings tx1)"
      and rec: "rewrite_postings limit trs tx1 (i + 1) = Some (Inr tx')"
      by blast
    from rewrite_triggers_appends [OF tr] obtain new1 where
      tx1: "tx1 = tx\<lparr>Postings := Postings tx @ new1\<rparr>"
      and new1: "\<forall>pp\<in>set new1. GeneratedBy pp \<noteq> GeneratedBy (Postings tx ! i) \<and> From pp = int i + 1"
      by blast
    from step.IH [OF True tr lim rec] obtain new2 where
      tx': "tx' = tx1\<lparr>Postings := Postings tx1 @ new2\<rparr>"
      and new2: "\<forall>k<length new2. \<exists>j. i + 1 \<le> j \<and> j < length (Postings tx1) + k \<and>
        From (new2 ! k) = int j + 1 \<and>
        GeneratedBy (new2 ! k) \<noteq> GeneratedBy ((Postings tx1 @ new2) ! j)"
      by blast
    let ?new = "new1 @ new2"
    have eq: "tx' = tx\<lparr>Postings := Postings tx @ ?new\<rparr>"
      using tx1 tx' by simp
    have "\<exists>j. i \<le> j \<and> j < length (Postings tx) + k \<and> From (?new ! k) = int j + 1 \<and>
        GeneratedBy (?new ! k) \<noteq> GeneratedBy ((Postings tx @ ?new) ! j)"
      if k: "k < length ?new" for k
    proof (cases "k < length new1")
      case True
      then have "new1 ! k \<in> set new1" by simp
      with new1 have "GeneratedBy (new1 ! k) \<noteq> GeneratedBy (Postings tx ! i)"
        and "From (new1 ! k) = int i + 1"
        by blast+
      with True \<open>i < length (Postings tx)\<close> have "i \<le> i \<and> i < length (Postings tx) + k \<and>
          From (?new ! k) = int i + 1 \<and>
          GeneratedBy (?new ! k) \<noteq> GeneratedBy ((Postings tx @ ?new) ! i)"
        by (simp add: nth_append)
      then show ?thesis by blast
    next
      case False
      with k have k2: "k - length new1 < length new2" by simp
      with new2 obtain j where j: "i + 1 \<le> j" "j < length (Postings tx1) + (k - length new1)"
        "From (new2 ! (k - length new1)) = int j + 1"
        "GeneratedBy (new2 ! (k - length new1)) \<noteq> GeneratedBy ((Postings tx1 @ new2) ! j)"
        by blast
      have "Postings tx1 @ new2 = Postings tx @ ?new" using tx1 by simp
      with j False have "i \<le> j \<and> j < length (Postings tx) + k \<and> From (?new ! k) = int j + 1 \<and>
          GeneratedBy (?new ! k) \<noteq> GeneratedBy ((Postings tx @ ?new) ! j)"
        using tx1 by (simp add: nth_append)
      then show ?thesis by blast
    qed
    with eq show ?thesis by blast
  qed
qed


















text \<open>
  C3. A trigger is never applied to a posting it generated. Processing a posting \<open>p\<close>
  with a list of triggers gives, in every state of the loop, what processing it with
  only the triggers whose \<open>ID\<close> differs from \<open>GeneratedBy p\<close> gives: the matchers and
  the actions of the others play no part, whatever they are. Hence every posting the
  loop appends names as its source (\<open>From\<close>, an index counted from 1) a posting that was
  not generated by the same trigger. The trigger of the Tips example matches the
  account its own action writes to: it fires once on the user's posting and not again
  on the posting it generated, and the loop ends below the ceiling.
\<close>

theorem trigger_skips_own_postings:
  "rewrite_triggers trs i p tx =
     rewrite_triggers (filter (\<lambda>tr. ID tr \<noteq> GeneratedBy p) trs) i p tx
   \<and> (rewrite_postings limit trs tx i = Some (Inr tx') \<longrightarrow>
        (\<exists>new. tx' = tx\<lparr>Postings := Postings tx @ new\<rparr> \<and>
           (\<forall>k<length new. \<exists>j. i \<le> j \<and> j < length (Postings tx) + k \<and>
              From (new ! k) = int j + 1 \<and>
              GeneratedBy (new ! k) \<noteq> GeneratedBy ((Postings tx @ new) ! j))))
   \<and> rewrite_postings 1000 [tips_trigger] tips_tx 0 = Some (Inr tips_rewritten)"
  using rewrite_triggers_skips_own [of trs i p tx]
    rewrite_postings_provenance [of limit trs tx i tx'] tips_no_refire
  by blast

theorem trigger_skips_own_postings_witness:
  "rewrite_triggers [tips_trigger] 2 (Postings tips_rewritten ! 2) tips_rewritten =
     Some (Inr tips_rewritten)
   \<and> (\<exists>new. tips_rewritten = tips_tx\<lparr>Postings := Postings tips_tx @ new\<rparr> \<and>
         (\<forall>k<length new. \<exists>j. 0 \<le> j \<and> j < length (Postings tips_tx) + k \<and>
            From (new ! k) = int j + 1 \<and>
            GeneratedBy (new ! k) \<noteq> GeneratedBy ((Postings tips_tx @ new) ! j)))"
proof -
  note inst1 = trigger_skips_own_postings [where trs = "[tips_trigger]" and i = 2
      and p = "Postings tips_rewritten ! 2" and tx = tips_rewritten]
  note inst2 = trigger_skips_own_postings [where limit = 1000 and trs = "[tips_trigger]"
      and tx = tips_tx and i = 0 and tx' = tips_rewritten]
  have own: "filter (\<lambda>tr. ID tr \<noteq> GeneratedBy (Postings tips_rewritten ! 2)) [tips_trigger] = []"
    by (simp add: tips_rewritten_def tips_trigger_def tips_tx_def)
  from inst1 have "rewrite_triggers [tips_trigger] 2 (Postings tips_rewritten ! 2) tips_rewritten =
      Some (Inr tips_rewritten)"
    by (simp only: own rewrite_triggers.simps)
  moreover from inst2 have "\<exists>new. tips_rewritten = tips_tx\<lparr>Postings := Postings tips_tx @ new\<rparr> \<and>
         (\<forall>k<length new. \<exists>j. 0 \<le> j \<and> j < length (Postings tips_tx) + k \<and>
            From (new ! k) = int j + 1 \<and>
            GeneratedBy (new ! k) \<noteq> GeneratedBy ((Postings tips_tx @ new) ! j))"
    by blast
  ultimately show ?thesis by blast
qed

text \<open>
  C4, as the claim states it, fails: the loop calls the scripts of the matchers, and
  nothing interrupts a script. With the trigger \<^verbatim>\<open>= JS (function(){for(;;){}})()\<close> the
  rewriting of the Paycheck transaction never ends: no result, no cycle error, and the
  run never reaches the balancing.
\<close>

theorem rewrite_hangs_on_diverging_script:
  "rewrite_postings 1000 [hanging_trigger] paycheck 0 = None
   \<and> rewrite_transactions 1000 [hanging_trigger] [paycheck] = None
   \<and> process False False 1000 [hanging_trigger] [paycheck] = None"
  using hanging_trigger_hangs by (simp add: process_def)

text \<open>
  C4, amended. When the script of every scripted matcher returns, the rewriting of a
  transaction always ends, for every transaction, trigger list and ceiling, and so
  does the rewriting of a list of transactions. When the loop ends normally the
  transaction has at most as many postings as the ceiling allows. The count is checked
  after each index is processed, with everything appended for it: when it exceeds the
  ceiling the run stops with "posting cycle detected". The triggers of the Ping and
  Pong example feed each other; whatever the ceiling, their run stops with that error,
  and \<open>process\<close> goes no further.
\<close>

theorem rewrite_ends_or_detects_cycle:
  assumes "\<forall>tr\<in>set trs. \<forall>e\<in>set (Matchers tr). matcher_returns e"
  shows "(\<exists>r. rewrite_postings limit trs tx 0 = Some r)
   \<and> (\<exists>r. rewrite_transactions limit trs txs = Some r)
   \<and> (rewrite_postings limit trs tx 0 = Some (Inr tx') \<longrightarrow> length (Postings tx') \<le> limit)
   \<and> (i < length (Postings tx) \<and> rewrite_triggers trs i (Postings tx ! i) tx = Some (Inr tx1)
        \<and> limit < length (Postings tx1) \<longrightarrow>
      rewrite_postings limit trs tx i = Some (Inl PostingCycleDetected))
   \<and> rewrite_postings limit [ping_trigger, pong_trigger] ping_tx 0 =
        Some (Inl PostingCycleDetected)
   \<and> process False noBalance limit [ping_trigger, pong_trigger] [ping_tx] =
        Some ([], Panics PostingCycleDetected)"
proof -
  have "length (Postings tx') \<le> limit" if "rewrite_postings limit trs tx 0 = Some (Inr tx')"
    using rewrite_postings_bounded [OF that] by (auto split: if_splits)
  then show ?thesis
    using rewrite_postings_terminates [OF assms, of limit tx 0]
      rewrite_transactions_terminates [OF assms, of limit txs]
      rewrite_postings_cycle_check [of i tx trs tx1 limit]
      ping_pong_from_start [of limit] ping_pong_aborts [of noBalance limit]
    by blast
qed

theorem rewrite_ends_or_detects_cycle_witness:
  "(\<exists>r. rewrite_postings 1000 [tips_trigger, returning_trigger] tips_tx 0 = Some r)
   \<and> length (Postings tips_rewritten) \<le> 1000
   \<and> rewrite_postings 100 [ping_trigger, pong_trigger] ping_tx 0 = Some (Inl PostingCycleDetected)
   \<and> process False False 1000 [ping_trigger, pong_trigger] [ping_tx] =
        Some ([], Panics PostingCycleDetected)"
proof -
  have ret1: "\<forall>tr\<in>set [tips_trigger]. \<forall>e\<in>set (Matchers tr). matcher_returns e"
    by (simp add: tips_trigger_def)
  have ret2: "\<forall>tr\<in>set [tips_trigger, returning_trigger]. \<forall>e\<in>set (Matchers tr). matcher_returns e"
    by (simp add: tips_trigger_def returning_trigger_def is_virtual_def)
  have run: "rewrite_postings 1000 [tips_trigger] tips_tx 0 = Some (Inr tips_rewritten)"
    by (simp add: rewrite_postings.simps tips_rewritten_def tips_trigger_def tips_tx_def
        Trigger_Match_def RegexpMatcher_Match_def MatchString_def FindStringSubmatch_def
        exactly_def Execute_def match_prefix_def ident_char_def Trim_def index_def)
  from rewrite_ends_or_detects_cycle [OF ret2, where limit = 1000 and tx = tips_tx]
  have "\<exists>r. rewrite_postings 1000 [tips_trigger, returning_trigger] tips_tx 0 = Some r"
    by blast
  moreover from run rewrite_ends_or_detects_cycle [OF ret1, where limit = 1000
      and tx = tips_tx and tx' = tips_rewritten]
  have "length (Postings tips_rewritten) \<le> 1000"
    by blast
  moreover from rewrite_ends_or_detects_cycle [OF ret1, where limit = 100]
  have "rewrite_postings 100 [ping_trigger, pong_trigger] ping_tx 0 = Some (Inl PostingCycleDetected)"
    by blast
  moreover from rewrite_ends_or_detects_cycle [OF ret1, where limit = 1000 and noBalance = False]
  have "process False False 1000 [ping_trigger, pong_trigger] [ping_tx] =
        Some ([], Panics PostingCycleDetected)"
    by blast
  ultimately show ?thesis by blast
qed




section \<open>Where the program departs from its specification\<close>

text \<open>
  C7. \<open>main\<close> calls \<open>Balance\<close> on a transaction also after \<open>AutoBalance\<close> has
  refused it. With two real postings whose amounts are elided, \<open>Balance\<close> then
  dereferences a nil amount: the run panics after one report, the transaction after it
  (which does not balance) is never checked, and the exit with status 1 is never
  reached.
\<close>

theorem balance_stage_panics_after_two_elided:
  "balance_stage False [two_elided, off_by_five] =
     ([Report (Errorf ''AutoBalance: a transaction may only have one elided value'' []) two_elided],
      Panics NilPointerDereference)"
  by (simp add: balance_stage_def AutoBalance_def Balance_def two_elided_def)

text \<open>
  C9. \<open>fy\<close> prints each year component with \<^verbatim>\<open>%d\<close>, so a component below ten is a
  single digit: for 15 March 2005 the label is \<^verbatim>\<open>FY45\<close>, not \<^verbatim>\<open>FY0405\<close>.
\<close>

theorem fy_single_digit_years:
  "fy \<lparr>Year = 2005, Month = March, Day = 15\<rparr> = ''FY45''"
  by (simp add: fy_def Sprintf_d_def signed_modulo_int_def)

end
